theory Spec2Isabelle
  imports Main "HOL-Library.Char_ord" "HOL-Library.List_Lexorder"
begin

section \<open>Python values as the program observes them\<close>

text \<open>
  Text is a list of characters; the characters of a Python \<open>str\<close> are taken from the
  code points below 256.  A spreadsheet or data-frame cell is \<open>None\<close>, a \<open>str\<close>, or any
  other Python object (a float, NaN included, an integer, a timestamp); of such an
  object the program only ever takes \<open>str(v)\<close> and its truth value, so it is
  represented by these two observations.
\<close>

datatype cell = CNone | CStr string | CObj string bool

fun py_str :: "cell \<Rightarrow> string" where
  "py_str CNone = ''None''"
| "py_str (CStr s) = s"
| "py_str (CObj r t) = r"

fun py_truthy :: "cell \<Rightarrow> bool" where
  "py_truthy CNone = False"
| "py_truthy (CStr s) = (s \<noteq> [])"
| "py_truthy (CObj r t) = t"

text \<open>Exceptions, by the class distinction the handlers of the program make.\<close>

datatype py_exn = ValueError string | IndexError string | OtherError string

fun exn_msg :: "py_exn \<Rightarrow> string" where
  "exn_msg (ValueError m) = m"
| "exn_msg (IndexError m) = m"
| "exn_msg (OtherError m) = m"

section \<open>Characters and string methods\<close>

definition newline :: char where
  "newline = CHR 0x0A"

text \<open>\<open>\d\<close> on the code points below 256: the digits \<open>0\<close> to \<open>9\<close>.\<close>

definition is_digit :: "char \<Rightarrow> bool" where
  "is_digit c = (48 \<le> (of_char c :: nat) \<and> (of_char c :: nat) \<le> 57)"

text \<open>\<open>str.isspace\<close> on the code points below 256.\<close>

definition is_space :: "char \<Rightarrow> bool" where
  "is_space c = (of_char c \<in> {9, 10, 11, 12, 13, 28, 29, 30, 31, 32, 133, 160 :: nat})"

definition py_strip :: "string \<Rightarrow> string" where
  "py_strip s = rev (dropWhile is_space (rev (dropWhile is_space s)))"

text \<open>
  \<open>s.split()\<close>: the maximal runs of non-whitespace characters, in order.  \<open>cur\<close> is the
  run being read.
\<close>

fun split_acc :: "string \<Rightarrow> string \<Rightarrow> string list" where
  "split_acc cur [] = (if cur = [] then [] else [cur])"
| "split_acc cur (c # cs) =
     (if is_space c then (if cur = [] then [] else [cur]) @ split_acc [] cs
      else split_acc (cur @ [c]) cs)"

definition py_split :: "string \<Rightarrow> string list" where
  "py_split s = split_acc [] s"

fun py_join :: "string \<Rightarrow> string list \<Rightarrow> string" where
  "py_join sep [] = []"
| "py_join sep [x] = x"
| "py_join sep (x # y # ys) = x @ sep @ py_join sep (y # ys)"

section \<open>The line-item pattern\<close>

text \<open>
  \<open>re.match(r"(.+?) \((S\d+)\)\[C\]:(\d{4}-\d{2}-\d{2}):(\d{4}-\d{2}-\d{2})", s)\<close>
  anchors at the start of \<open>s\<close> and accepts any continuation after the second date.

  \<open>expect p s\<close> consumes the literal \<open>p\<close> from the front of \<open>s\<close>.
\<close>

fun expect :: "string \<Rightarrow> string \<Rightarrow> string option" where
  "expect [] s = Some s"
| "expect (p # ps) [] = None"
| "expect (p # ps) (c # cs) = (if p = c then expect ps cs else None)"

text \<open>\<open>\d{4}-\d{2}-\d{2}\<close> on a text of exactly ten characters.\<close>

fun date_shape :: "string \<Rightarrow> bool" where
  "date_shape [y1, y2, y3, y4, h1, m1, m2, h2, d1, d2] =
     (is_digit y1 \<and> is_digit y2 \<and> is_digit y3 \<and> is_digit y4 \<and> h1 = CHR ''-'' \<and>
      is_digit m1 \<and> is_digit m2 \<and> h2 = CHR ''-'' \<and> is_digit d1 \<and> is_digit d2)"
| "date_shape s = False"

definition take_date :: "string \<Rightarrow> (string \<times> string) option" where
  "take_date s = (if date_shape (take 10 s) then Some (take 10 s, drop 10 s) else None)"

text \<open>
  Everything after group 1: \<open> \((S\d+)\)\[C\]:(date):(date)\<close>.  The greedy \<open>\d+\<close> is
  followed by \<open>\)\<close>, which is no digit, so the only run of digits that can lead to a
  match is the maximal one; every other part has a fixed width.  The result is
  groups 2, 3 and 4.
\<close>

definition match_tail :: "string \<Rightarrow> (string \<times> string \<times> string) option" where
  "match_tail s =
     (case expect '' (S'' s of
        None \<Rightarrow> None
      | Some s1 \<Rightarrow>
          if takeWhile is_digit s1 = [] then None
          else
            (case expect '')[C]:'' (dropWhile is_digit s1) of
               None \<Rightarrow> None
             | Some s2 \<Rightarrow>
                 (case take_date s2 of
                    None \<Rightarrow> None
                  | Some (d1, s3) \<Rightarrow>
                      (case expect '':'' s3 of
                         None \<Rightarrow> None
                       | Some s4 \<Rightarrow>
                           (case take_date s4 of
                              None \<Rightarrow> None
                            | Some (d2, s5) \<Rightarrow>
                                Some (CHR ''S'' # takeWhile is_digit s1, d1, d2))))))"

text \<open>
  The lazy \<open>(.+?)\<close>: group 1 starts with one character and grows by one character
  (never a newline) each time the rest of the pattern fails behind it.
\<close>

fun lazy_scan :: "string \<Rightarrow> string \<Rightarrow> (string \<times> string \<times> string \<times> string) option" where
  "lazy_scan g1 [] = map_option (Pair g1) (match_tail [])"
| "lazy_scan g1 (c # cs) =
     (case match_tail (c # cs) of
        Some r \<Rightarrow> Some (g1, r)
      | None \<Rightarrow> if c = newline then None else lazy_scan (g1 @ [c]) cs)"

fun re_match :: "string \<Rightarrow> (string \<times> string \<times> string \<times> string) option" where
  "re_match [] = None"
| "re_match (c # cs) = (if c = newline then None else lazy_scan [c] cs)"

section \<open>Description parser\<close>

record parsed =
  firstName :: "string option"
  lastName :: "string option"
  candidateId :: "string option"
  vectorWeekEnding :: "string option"

definition no_fields :: parsed where
  "no_fields = \<lparr>firstName = None, lastName = None, candidateId = None,
                vectorWeekEnding = None\<rparr>"

text \<open>
  \<open>parse_line_item\<close>.  \<open>full_name[0]\<close> raises \<open>IndexError\<close> on the empty list.
\<close>

definition parse_line_item :: "cell \<Rightarrow> py_exn + parsed" where
  "parse_line_item description =
     (case re_match (py_str description) of
        Some (g1, g2, g3, g4) \<Rightarrow>
          (let full_name = py_split (py_strip g1) in
           case full_name of
             [] \<Rightarrow> Inl (IndexError ''list index out of range'')
           | first # rest \<Rightarrow>
               Inr \<lparr>firstName = Some first,
                    lastName = Some (if length full_name > 1 then py_join '' '' rest else []),
                    candidateId = Some g2,
                    vectorWeekEnding = Some g4\<rparr>)
      | None \<Rightarrow> Inr no_fields)"

section \<open>Calendar dates\<close>

datatype date = Date (year: nat) (month: nat) (day: nat)

definition leap_year :: "nat \<Rightarrow> bool" where
  "leap_year y = (y mod 4 = 0 \<and> (y mod 100 \<noteq> 0 \<or> y mod 400 = 0))"

definition days_in_month :: "nat \<Rightarrow> nat \<Rightarrow> nat" where
  "days_in_month y m =
     (if m = 2 then (if leap_year y then 29 else 28)
      else if m = 4 \<or> m = 6 \<or> m = 9 \<or> m = 11 then 30 else 31)"

definition valid_date :: "date \<Rightarrow> bool" where
  "valid_date d = (1 \<le> year d \<and> 1 \<le> month d \<and> month d \<le> 12 \<and> 1 \<le> day d \<and>
                   day d \<le> days_in_month (year d) (month d))"




text \<open>Adding whole days (\<open>+ timedelta(days=n)\<close>) steps through the calendar.\<close>

definition next_day :: "date \<Rightarrow> date" where
  "next_day d =
     (if day d < days_in_month (year d) (month d) then Date (year d) (month d) (day d + 1)
      else if month d < 12 then Date (year d) (month d + 1) 1
      else Date (year d + 1) 1 1)"

primrec add_days :: "nat \<Rightarrow> date \<Rightarrow> date" where
  "add_days 0 d = d"
| "add_days (Suc n) d = add_days n (next_day d)"

subsection \<open>Reading and writing \<open>%Y-%m-%d\<close>\<close>

definition digit_val :: "char \<Rightarrow> nat" where
  "digit_val c = of_char c - 48"

definition digit_char :: "nat \<Rightarrow> char" where
  "digit_char n = ''0123456789'' ! (n mod 10)"

definition num_of :: "string \<Rightarrow> nat" where
  "num_of ds = foldl (\<lambda>n c. 10 * n + digit_val c) 0 ds"

fun digits :: "nat \<Rightarrow> string" where
  "digits n = (if n < 10 then [digit_char n] else digits (n div 10) @ [digit_char n])"

declare digits.simps [simp del]

text \<open>\<open>%m\<close> and \<open>%d\<close> write two digits, \<open>%Y\<close> at least four.\<close>

definition pad2 :: "nat \<Rightarrow> string" where
  "pad2 n = [digit_char (n div 10), digit_char n]"

definition pad4 :: "nat \<Rightarrow> string" where
  "pad4 n =
     (if n < 10000
      then [digit_char (n div 1000), digit_char (n div 100), digit_char (n div 10), digit_char n]
      else digits n)"

definition strftime :: "date \<Rightarrow> string" where
  "strftime d = pad4 (year d) @ ''-'' @ pad2 (month d) @ ''-'' @ pad2 (day d)"

text \<open>
  A text of the shape \<open>dddd-dd-dd\<close> read as a date; \<open>None\<close> when it names no day of the
  calendar.  This is \<open>datetime.strptime(s, '%Y-%m-%d').date()\<close> on the texts
  \<open>strftime\<close> writes, and \<open>pd.to_datetime(s, errors='coerce')\<close> (\<open>None\<close> for \<open>NaT\<close>) on
  the texts group 4 of the line-item pattern can hold.
\<close>

definition parse_iso_date :: "string \<Rightarrow> date option" where
  "parse_iso_date s =
     (if date_shape s then
        (let d = Date (num_of (take 4 s)) (num_of (take 2 (drop 5 s))) (num_of (take 2 (drop 8 s)))
         in if valid_date d then Some d else None)
      else None)"

section \<open>Date deriver\<close>

text \<open>
  The column \<open>FMS Week Ending\<close>:
  \<open>pd.to_datetime(col, errors='coerce') + timedelta(days=2)\<close>, then
  \<open>.dt.strftime('%Y-%m-%d')\<close>; a missing or unreadable entry stays missing.
\<close>

definition to_datetime :: "string option \<Rightarrow> date option" where
  "to_datetime v = (case v of None \<Rightarrow> None | Some s \<Rightarrow> parse_iso_date s)"

definition deriveFmsWeekEnding :: "string option \<Rightarrow> string option" where
  "deriveFmsWeekEnding v = map_option (\<lambda>d. strftime (add_days 2 d)) (to_datetime v)"

section \<open>Floating-point operations\<close>

text \<open>
  The program's arithmetic is on binary floating-point numbers.  The operations it uses
  are parameters of the model, over any carrier \<open>'f\<close>: \<open>float(s)\<close> (\<open>None\<close> when it raises
  \<open>ValueError\<close>), the sum of a column, \<open>round(x, 2)\<close> on the column sum and on the
  entered amount, \<open>==\<close>, \<open>str\<close> and the truth value.
\<close>

record 'f float_ops =
  to_float :: "string \<Rightarrow> 'f option"
  fzero :: 'f
  fsum :: "'f list \<Rightarrow> 'f"
  round_sum :: "'f \<Rightarrow> 'f"
  round_float :: "'f \<Rightarrow> 'f"
  feq :: "'f \<Rightarrow> 'f \<Rightarrow> bool"
  float_str :: "'f \<Rightarrow> string"
  float_bool :: "'f \<Rightarrow> bool"

definition float_cell :: "'f float_ops \<Rightarrow> 'f \<Rightarrow> cell" where
  "float_cell ops x = CObj (float_str ops x) (float_bool ops x)"

definition nan_cell :: cell where
  "nan_cell = CObj ''nan'' True"

section \<open>Rows\<close>

text \<open>
  One row of the uploaded sheet as \<open>pd.read_excel\<close> yields it.  \<open>paymentDate\<close> is the
  value of \<open>pd.to_datetime(..., errors='coerce')\<close> on the cell: a day and a time of day in
  seconds, or \<open>None\<close> for \<open>NaT\<close>.  A missing \<open>Extended Amount\<close> is \<open>None\<close>.
\<close>

record 'f invoice_row =
  paymentDate :: "(date \<times> nat) option"
  lineItemDescription :: cell
  extendedAmount :: "'f option"
  quantity :: cell
  unitCost :: cell
  invoiceAmount :: cell
  dueDate :: cell
  caiInvoiceNumber :: cell
  supplierInvoiceNumber :: cell

text \<open>A row of \<open>df_final\<close>, with the renamed columns and the ACH metadata.\<close>

record 'f reconciled_row = parsed +
  fmsWeekEnding :: "string option"
  hours :: cell
  billRate :: cell
  extendedAmt :: "'f option"
  invoiceAmt :: cell
  due :: cell
  caiInvoiceNo :: cell
  esgInvoiceNumber :: cell
  achDescription :: string
  achAmount :: 'f
  achDate :: string

definition dt_date :: "(date \<times> nat) option \<Rightarrow> date option" where
  "dt_date t = map_option fst t"

definition matching_rows :: "date \<Rightarrow> 'f invoice_row list \<Rightarrow> 'f invoice_row list" where
  "matching_rows d df = filter (\<lambda>r. dt_date (paymentDate r) = Some d) df"

text \<open>\<open>Series.sum()\<close> skips missing values: they count as zero.\<close>

definition column_total :: "'f float_ops \<Rightarrow> 'f invoice_row list \<Rightarrow> 'f" where
  "column_total ops df =
     fsum ops (map (\<lambda>r. case extendedAmount r of None \<Rightarrow> fzero ops | Some a \<Rightarrow> a) df)"

text \<open>\<open>.apply(parse_line_item)\<close>: row by row, the first exception ends it.\<close>

fun apply_parse :: "'f invoice_row list \<Rightarrow> py_exn + parsed list" where
  "apply_parse [] = Inr []"
| "apply_parse (r # rs) =
     (case parse_line_item (lineItemDescription r) of
        Inl e \<Rightarrow> Inl e
      | Inr p \<Rightarrow> (case apply_parse rs of Inl e \<Rightarrow> Inl e | Inr ps \<Rightarrow> Inr (p # ps)))"

definition mk_row ::
  "string \<Rightarrow> 'f \<Rightarrow> string \<Rightarrow> 'f invoice_row \<Rightarrow> parsed \<Rightarrow> 'f reconciled_row" where
  "mk_row ach_description ach_amount_float ach_date_text r p =
     \<lparr>firstName = firstName p, lastName = lastName p, candidateId = candidateId p,
      vectorWeekEnding = vectorWeekEnding p,
      fmsWeekEnding = deriveFmsWeekEnding (vectorWeekEnding p),
      hours = quantity r, billRate = unitCost r, extendedAmt = extendedAmount r,
      invoiceAmt = invoiceAmount r, due = dueDate r, caiInvoiceNo = caiInvoiceNumber r,
      esgInvoiceNumber = supplierInvoiceNumber r,
      achDescription = ach_description, achAmount = ach_amount_float,
      achDate = ach_date_text\<rparr>"

text \<open>
  \<open>sort_values(by="Vector Week Ending")\<close>: ascending on the text, rows with a missing
  key last (\<open>na_position='last'\<close>, the default).
\<close>

definition has_week :: "('a parsed_scheme) \<Rightarrow> bool" where
  "has_week r = (vectorWeekEnding r \<noteq> None)"

definition sort_values :: "('a parsed_scheme) list \<Rightarrow> ('a parsed_scheme) list" where
  "sort_values df =
     sort_key (\<lambda>r. the (vectorWeekEnding r)) (filter has_week df)
     @ filter (\<lambda>r. \<not> has_week r) df"

section \<open>Report formatter\<close>

definition header :: "string list" where
  "header = [''First Name'', ''Last Name'', ''Candidate CAI ID'', ''Vector Week Ending'',
             ''FMS Week Ending'', ''Hours'', ''Bill Rate'', ''Extended Amount'',
             ''Invoice Amount'', ''Due Date'', ''CAI Invoice Number'', ''ESG Invoice Number'']"

definition text_cell :: "string option \<Rightarrow> cell" where
  "text_cell v = (case v of None \<Rightarrow> CNone | Some s \<Rightarrow> CStr s)"

text \<open>
  \<open>row.tolist()\<close> after the summary columns are dropped.  A missing
  \<open>FMS Week Ending\<close> or \<open>Extended Amount\<close> is the float NaN.
\<close>

definition row_tolist :: "'f float_ops \<Rightarrow> 'f reconciled_row \<Rightarrow> cell list" where
  "row_tolist ops row =
     [text_cell (firstName row), text_cell (lastName row), text_cell (candidateId row),
      text_cell (vectorWeekEnding row),
      (case fmsWeekEnding row of None \<Rightarrow> nan_cell | Some s \<Rightarrow> CStr s),
      hours row, billRate row,
      (case extendedAmt row of None \<Rightarrow> nan_cell | Some a \<Rightarrow> float_cell ops a),
      invoiceAmt row, due row, caiInvoiceNo row, esgInvoiceNumber row]"

definition blank_row :: "cell list" where
  "blank_row = replicate (length header) (CStr [])"

text \<open>The truth value of \<open>prev_week\<close>: \<open>None\<close> and the empty text are false.\<close>

definition week_truthy :: "string option \<Rightarrow> bool" where
  "week_truthy w = (case w of None \<Rightarrow> False | Some s \<Rightarrow> s \<noteq> [])"

text \<open>The loop over \<open>df_final.iterrows()\<close>; its state is \<open>prev_week\<close>.\<close>

fun insert_blank_rows ::
  "'f float_ops \<Rightarrow> string option \<Rightarrow> 'f reconciled_row list \<Rightarrow> cell list list" where
  "insert_blank_rows ops prev_week [] = []"
| "insert_blank_rows ops prev_week (row # rest) =
     (if week_truthy prev_week \<and> vectorWeekEnding row \<noteq> prev_week then [blank_row] else [])
     @ row_tolist ops row # insert_blank_rows ops (vectorWeekEnding row) rest"

definition formatted_rows :: "'f float_ops \<Rightarrow> 'f reconciled_row list \<Rightarrow> cell list list" where
  "formatted_rows ops df_final = insert_blank_rows ops None df_final"

text \<open>
  The worksheet: the rows appended, in order.  \<open>ws.columns\<close> yields, for each column up
  to the widest row, one cell per row; a row too short gives an empty cell.
\<close>

definition build_sheet :: "(string \<times> cell) list \<Rightarrow> cell list list \<Rightarrow> cell list list" where
  "build_sheet summary_data body =
     [[CStr ''ACH Summary'']] @ map (\<lambda>(k, v). [CStr k, v]) summary_data @ [[]]
     @ [map CStr header] @ body"

definition max_column :: "cell list list \<Rightarrow> nat" where
  "max_column ws = foldr (\<lambda>row n. max (length row) n) ws 0"

definition ws_columns :: "cell list list \<Rightarrow> cell list list" where
  "ws_columns ws =
     map (\<lambda>j. map (\<lambda>row. if j < length row then row ! j else CNone) ws) [0..<max_column ws]"

text \<open>\<open>max\<close> of a sequence; the empty sequence raises \<open>ValueError\<close>.\<close>

fun py_max :: "nat list \<Rightarrow> py_exn + nat" where
  "py_max [] = Inl (ValueError ''max() arg is an empty sequence'')"
| "py_max (x # xs) = Inr (foldl max x xs)"

definition cell_len :: "cell \<Rightarrow> nat" where
  "cell_len c = (if py_truthy c then length (py_str c) else 0)"

definition column_width :: "cell list \<Rightarrow> py_exn + nat" where
  "column_width col =
     (case py_max (map cell_len col) of
        Inl e \<Rightarrow> Inl e
      | Inr max_len \<Rightarrow> Inr (min (max_len + 2) 40))"

fun auto_size :: "cell list list \<Rightarrow> py_exn + nat list" where
  "auto_size [] = Inr []"
| "auto_size (col # cols) =
     (case column_width col of
        Inl e \<Rightarrow> Inl e
      | Inr w \<Rightarrow> (case auto_size cols of Inl e \<Rightarrow> Inl e | Inr ws \<Rightarrow> Inr (w # ws)))"

section \<open>Reconciliation engine\<close>

record 'f report =
  rows :: "'f reconciled_row list"
  summary :: "(string \<times> cell) list"
  body :: "cell list list"
  worksheet :: "cell list list"
  widths :: "nat list"

datatype 'f outcome =
    MissingInput
  | NonNumericAmount
  | UnexpectedError string
  | NoMatchingRows
  | AmountMismatch 'f 'f
  | Success "'f report"

text \<open>
  From the extraction of the consultant fields to the finished sheet (the branch
  after the amount check).  \<open>.iloc[0]\<close> raises \<open>IndexError\<close> on an empty frame.
\<close>

definition build_report ::
  "'f float_ops \<Rightarrow> string \<Rightarrow> 'f \<Rightarrow> date \<Rightarrow> 'f invoice_row list \<Rightarrow> py_exn + 'f outcome" where
  "build_report ops ach_description ach_amount_float ach_date matching_df =
     (case apply_parse matching_df of
        Inl e \<Rightarrow> Inl e
      | Inr ps \<Rightarrow>
          (let df_final =
                 sort_values
                   (map2 (mk_row ach_description ach_amount_float (strftime ach_date))
                      matching_df ps)
           in case df_final of
                [] \<Rightarrow> Inl (IndexError ''single positional indexer is out-of-bounds'')
              | r0 # _ \<Rightarrow>
                  (let summary_data =
                         [(''ACH Description'', CStr (achDescription r0)),
                          (''ACH Amount'', float_cell ops (achAmount r0)),
                          (''ACH Date'', CStr (achDate r0))];
                       ws = build_sheet summary_data (formatted_rows ops df_final)
                   in case auto_size (ws_columns ws) of
                        Inl e \<Rightarrow> Inl e
                      | Inr w \<Rightarrow>
                          Inr (Success \<lparr>rows = df_final, summary = summary_data,
                                        body = formatted_rows ops df_final,
                                        worksheet = ws, widths = w\<rparr>))))"

text \<open>
  The body of the \<open>try\<close> block.  \<open>uploaded_file\<close> stands for what \<open>pd.read_excel\<close> makes
  of the upload: the rows, or the exception it raises.
\<close>

definition reconcile_body ::
  "'f float_ops \<Rightarrow> string \<Rightarrow> string \<Rightarrow> date \<Rightarrow> py_exn + 'f invoice_row list
     \<Rightarrow> py_exn + 'f outcome" where
  "reconcile_body ops ach_amount ach_description ach_date uploaded_file =
     (case to_float ops ach_amount of
        None \<Rightarrow> Inl (ValueError ''could not convert string to float'')
      | Some ach_amount_float \<Rightarrow>
          (case uploaded_file of
             Inl e \<Rightarrow> Inl e
           | Inr df \<Rightarrow>
               (case parse_iso_date (strftime ach_date) of
                  None \<Rightarrow> Inl (ValueError ''time data does not match format'')
                | Some d \<Rightarrow>
                    (let matching_df = matching_rows d df in
                     if matching_df = [] then Inr NoMatchingRows
                     else
                       (let total = column_total ops matching_df in
                        if \<not> feq ops (round_sum ops total) (round_float ops ach_amount_float)
                        then Inr (AmountMismatch total ach_amount_float)
                        else build_report ops ach_description ach_amount_float ach_date
                               matching_df)))))"

text \<open>The two handlers: \<open>except ValueError\<close>, then \<open>except Exception as e\<close>.\<close>

fun handlers :: "py_exn + 'f outcome \<Rightarrow> 'f outcome" where
  "handlers (Inl (ValueError m)) = NonNumericAmount"
| "handlers (Inl e) = UnexpectedError (exn_msg e)"
| "handlers (Inr out) = out"

definition reconcile ::
  "'f float_ops \<Rightarrow> string \<Rightarrow> string \<Rightarrow> date \<Rightarrow> py_exn + 'f invoice_row list \<Rightarrow> 'f outcome" where
  "reconcile ops ach_amount ach_description ach_date uploaded_file =
     handlers (reconcile_body ops ach_amount ach_description ach_date uploaded_file)"

text \<open>The button handler: all four inputs must be present before anything is tried.\<close>

definition generate_excel_output ::
  "'f float_ops \<Rightarrow> string \<Rightarrow> string \<Rightarrow> date option
     \<Rightarrow> (py_exn + 'f invoice_row list) option \<Rightarrow> 'f outcome" where
  "generate_excel_output ops ach_amount ach_description ach_date uploaded_file =
     (case (ach_date, uploaded_file) of
        (Some d, Some f) \<Rightarrow>
          if ach_amount = [] \<or> ach_description = [] then MissingInput
          else reconcile ops ach_amount ach_description d f
      | _ \<Rightarrow> MissingInput)"

section \<open>A fixed-point instance for evaluation\<close>

text \<open>
  An instance of the float operations in which an amount is a whole number of
  thousandths.  It agrees with binary floating point on the amounts the examples
  below use; on it, concrete runs of the program can be evaluated.  It reads plain
  decimal literals with at most three decimals (an optional sign, digits, an optional
  point and digits) and nothing else.
\<close>

definition milli_literal :: "string \<Rightarrow> int option" where
  "milli_literal s =
     (let t = py_strip s;
          neg = (t \<noteq> [] \<and> hd t = CHR ''-'');
          u = (if t \<noteq> [] \<and> (hd t = CHR ''-'' \<or> hd t = CHR ''+'') then tl t else t);
          ip = takeWhile is_digit u;
          r = dropWhile is_digit u;
          fp = (if r \<noteq> [] \<and> hd r = CHR ''.'' then tl r else [])
      in if (r = [] \<or> hd r = CHR ''.'') \<and> list_all is_digit fp \<and> length fp \<le> 3
            \<and> \<not> (ip = [] \<and> fp = [])
         then Some ((if neg then -1 else 1)
                * int (num_of ip * 1000 + num_of (take 3 (fp @ ''000''))))
         else None)"

text \<open>Rounding to two decimals, ties to the even hundredth.\<close>

definition milli_round2 :: "int \<Rightarrow> int" where
  "milli_round2 x =
     (let q = x div 10; r = x mod 10
      in 10 * (if r < 5 then q else if r > 5 then q + 1 else if even q then q else q + 1))"

definition milli_str :: "int \<Rightarrow> string" where
  "milli_str x =
     (let a = nat \<bar>x\<bar>;
          f = [digit_char (a div 100), digit_char (a div 10), digit_char a];
          f' = rev (dropWhile (\<lambda>c. c = CHR ''0'') (rev f))
      in (if x < 0 then ''-'' else []) @ digits (a div 1000) @ ''.''
         @ (if f' = [] then ''0'' else f'))"

definition milli_ops :: "int float_ops" where
  "milli_ops = \<lparr>to_float = milli_literal, fzero = 0, fsum = sum_list,
                round_sum = milli_round2, round_float = milli_round2,
                feq = (=), float_str = milli_str, float_bool = (\<lambda>x. x \<noteq> 0)\<rparr>"

section \<open>Example data\<close>

definition example_row :: "string \<Rightarrow> int \<Rightarrow> int invoice_row" where
  "example_row description amount =
     \<lparr>paymentDate = Some (Date 2024 3 15, 0), lineItemDescription = CStr description,
      extendedAmount = Some amount, quantity = CObj ''40.0'' True,
      unitCost = CObj ''12.5'' True, invoiceAmount = CObj ''500.0'' True,
      dueDate = CObj ''2024-04-14 00:00:00'' True, caiInvoiceNumber = CStr ''CAI-1001'',
      supplierInvoiceNumber = CStr ''ESG-77''\<rparr>"

definition example_rows :: "int invoice_row list" where
  "example_rows =
     [example_row ''John Smith (S123)[C]:2024-03-04:2024-03-10'' 500000,
      example_row ''Ann Lee (S77)[C]:2024-02-26:2024-03-03'' 500000]"


section \<open>Notions of the specification\<close>

text \<open>
  The order of the sort keys: texts ascending, a missing key after every text.
\<close>

definition week_le :: "string option \<Rightarrow> string option \<Rightarrow> bool" where
  "week_le a b =
     (case b of None \<Rightarrow> True | Some y \<Rightarrow> (case a of None \<Rightarrow> False | Some x \<Rightarrow> x \<le> y))"


text \<open>
  A full name as the specification words it: tokens, each after its run of
  whitespace.  \<open>layout\<close> writes the name out; \<open>spaced_tokens\<close> says that the runs are
  whitespace, that the tokens are non-empty and free of whitespace, and that only the
  first run may be empty.
\<close>

fun layout :: "(string \<times> string) list \<Rightarrow> string" where
  "layout [] = []"
| "layout ((sp, t) # rest) = sp @ t @ layout rest"

definition spaced_tokens :: "(string \<times> string) list \<Rightarrow> bool" where
  "spaced_tokens ps =
     ((\<forall>p\<in>set ps. (\<forall>c\<in>set (fst p). is_space c) \<and> snd p \<noteq> []
          \<and> (\<forall>c\<in>set (snd p). \<not> is_space c))
      \<and> (\<forall>p\<in>set (tl ps). fst p \<noteq> []))"

section \<open>Lemmas: dates\<close>

lemma digit_table: "k < 10 \<Longrightarrow> of_char (''0123456789'' ! k) = (48 + k :: nat)"
proof -
  assume "k < 10"
  then have "k = 0 \<or> k = 1 \<or> k = 2 \<or> k = 3 \<or> k = 4 \<or> k = 5 \<or> k = 6 \<or> k = 7 \<or> k = 8 \<or> k = 9"
    by arith
  then show ?thesis by (elim disjE) simp_all
qed

lemma digit_val_digit_char: "digit_val (digit_char n) = n mod 10"
  by (simp add: digit_val_def digit_char_def digit_table)

lemma is_digit_digit_char: "is_digit (digit_char n)"
  by (simp add: is_digit_def digit_char_def digit_table)

lemma num_of_4:
  assumes "n < 10000"
  shows "num_of [digit_char (n div 1000), digit_char (n div 100), digit_char (n div 10), digit_char n] = n"
proof -
  have a: "n div 100 = n div 10 div 10" by (simp add: div_mult2_eq [symmetric])
  have b: "n div 1000 = n div 10 div 10 div 10" by (simp add: div_mult2_eq [symmetric])
  have c: "n div 10 div 10 div 10 < 10" using assms unfolding b [symmetric] by simp
  show ?thesis
    unfolding num_of_def a b using c by (simp add: digit_val_digit_char)
qed

lemma num_of_2: "n < 100 \<Longrightarrow> num_of [digit_char (n div 10), digit_char n] = n"
  unfolding num_of_def by (simp add: digit_val_digit_char)

lemma days_in_month_le: "days_in_month y m \<le> 31"
  by (simp add: days_in_month_def)

lemma strptime_strftime:
  assumes "valid_date d" "year d < 10000"
  shows "parse_iso_date (strftime d) = Some d"
proof -
  have m: "month d < 100" using assms(1) by (simp add: valid_date_def)
  have "day d \<le> 31" using assms(1) days_in_month_le [of "year d" "month d"]
    by (simp add: valid_date_def)
  then have dd: "day d < 100" by simp
  show ?thesis
    using assms
    by (simp add: parse_iso_date_def strftime_def pad2_def pad4_def is_digit_digit_char
        num_of_4 num_of_2 [OF m] num_of_2 [OF dd])
qed











section \<open>Lemmas: the line-item pattern and the name tokens\<close>

lemma expect_append: "expect p (p @ s) = Some s"
  by (induction p) simp_all


lemma date_shape_length: "date_shape d \<Longrightarrow> length d = 10"
  by (erule date_shape.elims) simp_all


lemma not_digit_literals:
  "\<not> is_digit (CHR '' '')" "\<not> is_digit (CHR '')'')" "\<not> is_digit (CHR ''-'')"
  by (simp_all add: is_digit_def)

lemma take_date_append: "date_shape d \<Longrightarrow> take_date (d @ r) = Some (d, r)"
  by (simp add: take_date_def date_shape_length)


lemma digits_then_paren:
  "\<forall>c\<in>set ds. is_digit c \<Longrightarrow>
   takeWhile is_digit (ds @ CHR '')'' # r) = ds \<and> dropWhile is_digit (ds @ CHR '')'' # r) = CHR '')'' # r"
  by (simp add: takeWhile_append2 dropWhile_append2 not_digit_literals)

lemma match_tail_intro:
  assumes "ds \<noteq> []" "\<forall>c\<in>set ds. is_digit c" "date_shape d1" "date_shape d2"
  shows "match_tail ('' (S'' @ ds @ '')[C]:'' @ d1 @ '':'' @ d2 @ rest) = Some (CHR ''S'' # ds, d1, d2)"
proof -
  have e1: "expect '' (S'' ('' (S'' @ ds @ '')[C]:'' @ d1 @ '':'' @ d2 @ rest)
      = Some (ds @ CHR '')'' # ''[C]:'' @ d1 @ '':'' @ d2 @ rest)"
    by simp
  have e2: "expect '')[C]:'' (CHR '')'' # ''[C]:'' @ d1 @ '':'' @ d2 @ rest) = Some (d1 @ '':'' @ d2 @ rest)"
    by simp
  have e3: "expect '':'' ('':'' @ d2 @ rest) = Some (d2 @ rest)" by simp
  note dp = digits_then_paren [OF assms(2), of "''[C]:'' @ d1 @ '':'' @ d2 @ rest"]
  show ?thesis
    unfolding match_tail_def e1
    using assms(1) dp e2 e3 take_date_append [OF assms(3)] take_date_append [OF assms(4)]
    by simp
qed


lemma match_tail_Nil: "match_tail [] = None"
  by (simp add: match_tail_def)

lemma lazy_scan_found:
  "\<forall>k<length n. match_tail (drop k (n @ t)) = None \<Longrightarrow> newline \<notin> set n \<Longrightarrow>
   match_tail t = Some r \<Longrightarrow> lazy_scan g (n @ t) = Some (g @ n, r)"
proof (induction n arbitrary: g)
  case Nil
  then show ?case by (cases t) (simp_all add: match_tail_Nil)
next
  case (Cons c n)
  have none: "match_tail (c # n @ t) = None" using Cons.prems(1) by force
  have rest: "\<forall>k<length n. match_tail (drop k (n @ t)) = None"
  proof (intro allI impI)
    fix k assume "k < length n"
    then have "Suc k < length (c # n)" by simp
    with Cons.prems(1) have "match_tail (drop (Suc k) ((c # n) @ t)) = None" by blast
    then show "match_tail (drop k (n @ t)) = None" by simp
  qed
  have "lazy_scan (g @ [c]) (n @ t) = Some ((g @ [c]) @ n, r)"
    using Cons.IH [OF rest _ Cons.prems(3)] Cons.prems(2) by simp
  then show ?case using none Cons.prems(2) by auto
qed

lemma re_match_found:
  assumes "name \<noteq> []" "newline \<notin> set name" "match_tail t = Some r"
    and "\<forall>k\<in>set [1..<length name]. match_tail (drop k (name @ t)) = None"
  shows "re_match (name @ t) = Some (name, r)"
proof -
  obtain c n where name: "name = c # n" using assms(1) by (cases name) auto
  have "\<forall>k<length n. match_tail (drop k (n @ t)) = None"
  proof (intro allI impI)
    fix k assume "k < length n"
    then have "Suc k \<in> set [1..<length name]" by (auto simp: name)
    with assms(4) have "match_tail (drop (Suc k) (name @ t)) = None" by blast
    then show "match_tail (drop k (n @ t)) = None" by (simp add: name)
  qed
  then have "lazy_scan [c] (n @ t) = Some ([c] @ n, r)"
    using assms(2,3) by (intro lazy_scan_found) (simp_all add: name)
  then show ?thesis using assms(2) by (auto simp: name)
qed

lemma split_acc_trailing:
  "\<forall>c\<in>set tr. is_space c \<Longrightarrow> split_acc cur (s @ tr) = split_acc cur s"
proof (induction s arbitrary: cur)
  case Nil
  then show ?case by (induction tr arbitrary: cur) simp_all
next
  case (Cons c s)
  then show ?case by simp
qed

lemma split_acc_leading: "split_acc [] (dropWhile is_space s) = split_acc [] s"
  by (induction s) simp_all

lemma strip_right_decomp:
  "s = rev (dropWhile is_space (rev s)) @ rev (takeWhile is_space (rev s))"
proof -
  have "rev s = takeWhile is_space (rev s) @ dropWhile is_space (rev s)" by simp
  then have "rev (rev s) = rev (takeWhile is_space (rev s) @ dropWhile is_space (rev s))"
    by (rule arg_cong)
  then show ?thesis by (simp only: rev_rev_ident rev_append)
qed

lemma py_split_strip: "py_split (py_strip s) = py_split s"
proof -
  let ?u = "dropWhile is_space s"
  let ?tr = "rev (takeWhile is_space (rev ?u))"
  have sp: "\<forall>c\<in>set ?tr. is_space c" by (auto dest: set_takeWhileD)
  have "split_acc [] (py_strip s @ ?tr) = split_acc [] (py_strip s)"
    using sp by (rule split_acc_trailing)
  moreover have "py_strip s @ ?tr = ?u"
    unfolding py_strip_def by (rule strip_right_decomp [symmetric])
  ultimately have "split_acc [] (py_strip s) = split_acc [] ?u" by simp
  then show ?thesis by (simp add: py_split_def split_acc_leading)
qed

lemma split_acc_token:
  "\<forall>c\<in>set t. \<not> is_space c \<Longrightarrow> split_acc cur (t @ s) = split_acc (cur @ t) s"
  by (induction t arbitrary: cur) simp_all

lemma split_acc_gap:
  "sp \<noteq> [] \<Longrightarrow> \<forall>c\<in>set sp. is_space c \<Longrightarrow>
   split_acc cur (sp @ s) = (if cur = [] then [] else [cur]) @ split_acc [] s"
proof (induction sp arbitrary: cur)
  case Nil
  then show ?case by simp
next
  case (Cons c sp)
  show ?case
  proof (cases "sp = []")
    case True
    then show ?thesis using Cons.prems by simp
  next
    case False
    then have "split_acc [] (sp @ s) = split_acc [] s" using Cons.IH [of "[]"] Cons.prems by simp
    then show ?thesis using Cons.prems by simp
  qed
qed

lemma split_acc_spaces:
  "\<forall>c\<in>set sp. is_space c \<Longrightarrow> split_acc [] (sp @ s) = split_acc [] s"
  by (cases "sp = []") (simp_all add: split_acc_gap)

lemma split_after_token:
  assumes "\<forall>p\<in>set ps. (\<forall>c\<in>set (fst p). is_space c) \<and> fst p \<noteq> []"
    and "\<forall>c\<in>set tr. is_space c" and "t \<noteq> []"
  shows "split_acc t (layout ps @ tr) = t # split_acc [] (layout ps @ tr)"
proof (cases ps)
  case Nil
  have "split_acc t ([] @ tr) = split_acc t []" using assms(2) by (rule split_acc_trailing)
  moreover have "split_acc [] ([] @ tr) = split_acc [] []" using assms(2) by (rule split_acc_trailing)
  ultimately show ?thesis using assms(3) by (simp add: Nil)
next
  case (Cons p rest)
  obtain sp u where p: "p = (sp, u)" by (cases p)
  have sp: "sp \<noteq> []" "\<forall>c\<in>set sp. is_space c" using assms(1) by (auto simp: Cons p)
  show ?thesis using assms(3) by (simp add: Cons p split_acc_gap [OF sp])
qed

lemma py_split_layout:
  "spaced_tokens ps \<Longrightarrow> \<forall>c\<in>set tr. is_space c \<Longrightarrow>
   split_acc [] (layout ps @ tr) = map snd ps"
proof (induction ps)
  case Nil
  have "split_acc [] ([] @ tr) = split_acc [] []" using Nil(2) by (rule split_acc_trailing)
  then show ?case by simp
next
  case (Cons p rest)
  obtain sp t where p: "p = (sp, t)" by (cases p)
  have sp: "\<forall>c\<in>set sp. is_space c" and t: "t \<noteq> []" "\<forall>c\<in>set t. \<not> is_space c"
    using Cons.prems(1) by (auto simp: spaced_tokens_def p)
  have gaps: "\<forall>q\<in>set rest. (\<forall>c\<in>set (fst q). is_space c) \<and> fst q \<noteq> []"
    using Cons.prems(1) by (auto simp: spaced_tokens_def)
  have rest: "spaced_tokens rest"
    using Cons.prems(1) by (cases rest) (auto simp: spaced_tokens_def)
  have "split_acc [] (layout (p # rest) @ tr) = split_acc [] (t @ layout rest @ tr)"
    using split_acc_spaces [OF sp] by (simp add: p)
  also have "\<dots> = split_acc t (layout rest @ tr)"
    using split_acc_token [OF t(2), of "[]"] by simp
  also have "\<dots> = t # split_acc [] (layout rest @ tr)"
    using gaps Cons.prems(2) t(1) by (rule split_after_token)
  also have "\<dots> = t # map snd rest" using Cons.IH [OF rest Cons.prems(2)] by simp
  finally show ?case by (simp add: p)
qed









section \<open>Lemmas: sorting, formatting and the run as a whole\<close>

lemma sorted_part:
  "sorted_wrt week_le (map vectorWeekEnding (sort_key (\<lambda>r. the (vectorWeekEnding r)) (filter has_week df)))"
proof -
  let ?k = "\<lambda>r. the (vectorWeekEnding r)"
  let ?xs = "sort_key ?k (filter has_week df)"
  have s: "sorted (map ?k ?xs)" by (rule sorted_sort_key)
  have m: "\<forall>r\<in>set ?xs. has_week r" by simp
  have "sorted_wrt (\<lambda>a b. ?k a \<le> ?k b) ?xs" using s by (simp add: sorted_map)
  then have "sorted_wrt (\<lambda>a b. week_le (vectorWeekEnding a) (vectorWeekEnding b)) ?xs"
  proof (rule sorted_wrt_mono_rel [rotated])
    fix a b assume "a \<in> set ?xs" "b \<in> set ?xs" "?k a \<le> ?k b"
    then show "week_le (vectorWeekEnding a) (vectorWeekEnding b)"
      using m by (auto simp: week_le_def has_week_def split: option.splits)
  qed
  then show ?thesis by (simp add: sorted_wrt_map)
qed

lemma missing_part:
  "sorted_wrt week_le (map vectorWeekEnding (filter (\<lambda>r. \<not> has_week r) df))"
  by (induction df) (auto simp: week_le_def has_week_def)

lemma sort_values_sorted: "sorted_wrt week_le (map vectorWeekEnding (sort_values df))"
  unfolding sort_values_def map_append sorted_wrt_append
proof (intro conjI ballI)
  fix x y
  assume "y \<in> set (map vectorWeekEnding (filter (\<lambda>r. \<not> has_week r) df))"
  then have "y = None" by (auto simp: has_week_def)
  then show "week_le x y" by (simp add: week_le_def)
qed (rule sorted_part, rule missing_part)

lemma length_sort_values: "length (sort_values df) = length df"
  by (simp add: sort_values_def sum_length_filter_compl)

lemma handlers_Success: "handlers x = Success rep \<Longrightarrow> x = Inr (Success rep)"
  by (cases x rule: handlers.cases) simp_all

lemma build_report_Success:
  "build_report ops desc a d m = Inr (Success rep) \<Longrightarrow>
   (\<exists>ps. apply_parse m = Inr ps \<and> rows rep = sort_values (map2 (mk_row desc a (strftime d)) m ps)) \<and>
   body rep = formatted_rows ops (rows rep) \<and>
   worksheet rep \<noteq> [] \<and>
   auto_size (ws_columns (worksheet rep)) = Inr (widths rep)"
  unfolding build_report_def
  by (auto simp: Let_def build_sheet_def split: sum.splits list.splits)

lemma reconcile_body_Success:
  "reconcile_body ops a desc d f = Inr (Success rep) \<Longrightarrow>
   \<exists>x m. build_report ops desc x d m = Inr (Success rep)"
  unfolding reconcile_body_def
  by (auto simp: Let_def split: option.splits sum.splits if_splits)

lemma success_report:
  "reconcile ops a desc d f = Success rep \<Longrightarrow>
   (\<exists>df. rows rep = sort_values df) \<and>
   body rep = formatted_rows ops (rows rep) \<and>
   worksheet rep \<noteq> [] \<and>
   auto_size (ws_columns (worksheet rep)) = Inr (widths rep)"
proof -
  assume "reconcile ops a desc d f = Success rep"
  then have "reconcile_body ops a desc d f = Inr (Success rep)"
    unfolding reconcile_def by (rule handlers_Success)
  then obtain x m where "build_report ops desc x d m = Inr (Success rep)"
    using reconcile_body_Success by blast
  from build_report_Success [OF this] show ?thesis by blast
qed



lemma foldl_max_Max: "foldl max (x::nat) xs = Max (set (x # xs))"
proof -
  have "foldl max x xs = fold max xs x"
    by (induction xs arbitrary: x) (simp_all add: max.commute)
  then show ?thesis by (simp only: Max.set_eq_fold)
qed

lemma py_max_eq: "py_max (x # xs) = Inr (Max (set (x # xs)))"
  by (simp only: py_max.simps foldl_max_Max)

lemma column_width_eq:
  "col \<noteq> [] \<Longrightarrow> column_width col = Inr (min (Max (cell_len ` set col) + 2) 40)"
proof (cases col)
  case Nil
  assume "col \<noteq> []" with Nil show ?thesis by simp
next
  case (Cons c cs)
  have "py_max (map cell_len col) = Inr (Max (set (map cell_len col)))"
    unfolding Cons list.map by (rule py_max_eq)
  then show ?thesis unfolding column_width_def by (simp only: sum.case set_map)
qed

lemma auto_size_eq:
  "\<forall>col\<in>set cols. col \<noteq> [] \<Longrightarrow>
   auto_size cols = Inr (map (\<lambda>col. min (Max (cell_len ` set col) + 2) 40) cols)"
  by (induction cols) (simp_all add: column_width_eq)

lemma ws_columns_nonempty: "ws \<noteq> [] \<Longrightarrow> \<forall>col\<in>set (ws_columns ws). col \<noteq> []"
  by (simp add: ws_columns_def)

lemma apply_parse_length: "apply_parse m = Inr ps \<Longrightarrow> length ps = length m"
  by (induction m arbitrary: ps) (auto split: sum.splits)

lemma build_report_succeeds:
  assumes "m \<noteq> []" "apply_parse m = Inr ps"
  shows "\<exists>rep. build_report ops desc a d m = Inr (Success rep)"
proof -
  let ?df = "sort_values (map2 (mk_row desc a (strftime d)) m ps)"
  have "length ?df = length m"
    using apply_parse_length [OF assms(2)] by (simp add: length_sort_values)
  then obtain r0 rs where df: "?df = r0 # rs" using assms(1) by (cases ?df) auto
  let ?sd = "[(''ACH Description'', CStr (achDescription r0)),
              (''ACH Amount'', float_cell ops (achAmount r0)),
              (''ACH Date'', CStr (achDate r0))]"
  let ?ws = "build_sheet ?sd (formatted_rows ops ?df)"
  have "?ws \<noteq> []" by (simp add: build_sheet_def)
  from auto_size_eq [OF ws_columns_nonempty [OF this]]
  obtain w where w: "auto_size (ws_columns ?ws) = Inr w" by blast
  show ?thesis
    unfolding build_report_def using assms(2) df w by (simp add: Let_def)
qed


lemma reconcile_past_date:
  assumes "to_float ops ach_amount = Some a" "valid_date d" "year d < 10000"
  shows "reconcile ops ach_amount desc d (Inr df) =
     (if matching_rows d df = [] then NoMatchingRows
      else if \<not> feq ops (round_sum ops (column_total ops (matching_rows d df))) (round_float ops a)
      then AmountMismatch (column_total ops (matching_rows d df)) a
      else handlers (build_report ops desc a d (matching_rows d df)))"
  unfolding reconcile_def reconcile_body_def
  using assms(1) strptime_strftime [OF assms(2,3)] by (simp add: Let_def)

lemma reconcile_reader_error:
  "to_float ops ach_amount = Some a \<Longrightarrow>
   reconcile ops ach_amount desc d (Inl e) = handlers (Inl e)"
  by (simp add: reconcile_def reconcile_body_def)

section \<open>Lemmas: the example data\<close>

lemma milli_parse:
  "to_float milli_ops ''abc'' = None"
  "to_float milli_ops ''0'' = Some 0"
  "to_float milli_ops ''5'' = Some 5000"
  "to_float milli_ops ''999.99'' = Some 999990"
  "to_float milli_ops ''1000.00'' = Some 1000000"
  by (simp_all add: milli_ops_def milli_literal_def py_strip_def is_space_def is_digit_def
      num_of_def digit_val_def)

lemma milli_compare:
  "feq milli_ops (round_sum milli_ops x) (round_float milli_ops y) = (milli_round2 x = milli_round2 y)"
  by (simp add: milli_ops_def)


lemma example_matching:
  "matching_rows (Date 2024 3 15) example_rows = example_rows"
  "matching_rows (Date 2024 4 2) example_rows = []"
  by (simp_all add: matching_rows_def dt_date_def example_rows_def example_row_def)

lemma example_total: "column_total milli_ops example_rows = 1000000"
  by (simp add: column_total_def milli_ops_def example_rows_def example_row_def)


lemma example_dates:
  "valid_date (Date 2024 3 15)" "valid_date (Date 2024 4 2)"
  by (simp_all add: valid_date_def days_in_month_def)

lemma parse_john:
  "parse_line_item (CStr ''John Smith (S123)[C]:2024-03-04:2024-03-10'') =
     Inr \<lparr>firstName = Some ''John'', lastName = Some ''Smith'', candidateId = Some ''S123'',
          vectorWeekEnding = Some ''2024-03-10''\<rparr>"
  by (simp add: parse_line_item_def match_tail_def take_date_def is_digit_def is_space_def
      newline_def py_strip_def py_split_def)

lemma parse_ann:
  "parse_line_item (CStr ''Ann Lee (S77)[C]:2024-02-26:2024-03-03'') =
     Inr \<lparr>firstName = Some ''Ann'', lastName = Some ''Lee'', candidateId = Some ''S77'',
          vectorWeekEnding = Some ''2024-03-03''\<rparr>"
  by (simp add: parse_line_item_def match_tail_def take_date_def is_digit_def is_space_def
      newline_def py_strip_def py_split_def)

lemma example_parse: "\<exists>ps. apply_parse example_rows = Inr ps"
  by (simp add: example_rows_def example_row_def parse_john parse_ann)

lemma example_run_succeeds:
  "\<exists>rep. reconcile milli_ops ''1000.00'' ''March Payroll'' (Date 2024 3 15) (Inr example_rows)
     = Success rep"
proof -
  obtain ps where ps: "apply_parse example_rows = Inr ps" using example_parse by blast
  have ne: "example_rows \<noteq> []" by (simp add: example_rows_def)
  from build_report_succeeds [OF ne ps]
  obtain rep where "build_report milli_ops ''March Payroll'' 1000000 (Date 2024 3 15) example_rows
      = Inr (Success rep)" by blast
  then show ?thesis
    using reconcile_past_date [OF milli_parse(5) example_dates(1), of "''March Payroll''" example_rows]
    by (simp add: example_matching example_total milli_compare ne)
qed





section \<open>The claims\<close>




text \<open>
  \<^bold>\<open>C2\<close>.  Let the description be a full name, then \<open> (S\<close>, digits, \<open>)[C]:\<close>, a
  first date, \<open>:\<close>, a second date, and anything after it; let the name hold at least
  one token and no line break, and let the pattern match at no earlier split of the
  text (the lazy group takes the first).  Then the first name is the first token, the
  last name the other tokens joined by single spaces, the candidate id the \<open>S\<close> with
  its digits, and the week ending the second date.
\<close>

theorem parse_line_item_fields:
  assumes "spaced_tokens ps" and "ps \<noteq> []" and "\<forall>c\<in>set tr. is_space c"
    and "name = layout ps @ tr" and "newline \<notin> set name"
    and "ds \<noteq> []" and "\<forall>c\<in>set ds. is_digit c" and "date_shape date1" and "date_shape date2"
    and "\<forall>k\<in>set [1..<length name].
           match_tail (drop k (name @ '' (S'' @ ds @ '')[C]:'' @ date1 @ '':'' @ date2 @ rest)) = None"
  shows "parse_line_item (CStr (name @ '' (S'' @ ds @ '')[C]:'' @ date1 @ '':'' @ date2 @ rest)) =
         Inr \<lparr>firstName = Some (snd (hd ps)),
              lastName = Some (py_join '' '' (map snd (tl ps))),
              candidateId = Some (CHR ''S'' # ds),
              vectorWeekEnding = Some date2\<rparr>"
proof -
  let ?t = "'' (S'' @ ds @ '')[C]:'' @ date1 @ '':'' @ date2 @ rest"
  obtain p ps' where ps: "ps = p # ps'" using assms(2) by (cases ps) auto
  have "snd p \<noteq> []" using assms(1) by (simp add: spaced_tokens_def ps)
  then have ne: "name \<noteq> []" by (cases p) (simp add: assms(4) ps)
  have mt: "match_tail ?t = Some (CHR ''S'' # ds, date1, date2)"
    using assms(6-9) by (rule match_tail_intro)
  have rm: "re_match (name @ ?t) = Some (name, CHR ''S'' # ds, date1, date2)"
    using ne assms(5) mt assms(10) by (rule re_match_found)
  have "py_split name = map snd ps"
    unfolding py_split_def assms(4) using assms(1,3) by (rule py_split_layout)
  then have "py_split (py_strip name) = map snd ps" by (simp only: py_split_strip)
  then have sp: "py_split (py_strip name) = snd p # map snd ps'" by (simp add: ps)
  show ?thesis
    unfolding parse_line_item_def py_str.simps rm
    by (simp add: sp ps Let_def)
qed

theorem parse_line_item_fields_witness:
  "parse_line_item (CStr (''Al  B. C'' @ '' (S'' @ ''12'' @ '')[C]:'' @ ''2024-01-01'' @ '':''
      @ ''2024-01-08'' @ ''9 x'')) =
     Inr \<lparr>firstName = Some ''Al'', lastName = Some ''B. C'',
          candidateId = Some ''S12'', vectorWeekEnding = Some ''2024-01-08''\<rparr>"
proof -
  have h1: "spaced_tokens [([], ''Al''), (''  '', ''B.''), ('' '', ''C'')]"
    by (simp add: spaced_tokens_def is_space_def)
  have h2: "\<forall>c\<in>set []. is_space c" by simp
  have h3: "''Al  B. C'' = layout [([], ''Al''), (''  '', ''B.''), ('' '', ''C'')] @ []" by simp
  have h4: "newline \<notin> set ''Al  B. C''" by (simp add: newline_def)
  have h5: "\<forall>c\<in>set ''12''. is_digit c" by (simp add: is_digit_def)
  have h6: "date_shape ''2024-01-01''" "date_shape ''2024-01-08''" by (simp_all add: is_digit_def)
  have h7: "\<forall>k\<in>set [1..<length ''Al  B. C''].
           match_tail (drop k (''Al  B. C'' @ '' (S'' @ ''12'' @ '')[C]:'' @ ''2024-01-01'' @ '':''
             @ ''2024-01-08'' @ ''9 x'')) = None"
    by (simp add: match_tail_def)
  show ?thesis
    using parse_line_item_fields [OF h1 _ h2 h3 h4 _ h5 h6 h7] by simp
qed

text \<open>
  \<^bold>\<open>C3\<close>.  The parser raises on a description that matches the pattern with a name
  of whitespace only: \<open>full_name\<close> is the empty list and \<open>full_name[0]\<close> raises
  \<open>IndexError\<close>.
\<close>

theorem parse_line_item_blank_name_raises:
  "parse_line_item (CStr ''  (S1)[C]:2024-01-01:2024-01-08'') = Inl (IndexError ''list index out of range'')"
  by (simp add: parse_line_item_def match_tail_def take_date_def is_digit_def is_space_def
      newline_def py_strip_def py_split_def)

text \<open>
  \<^bold>\<open>C4\<close>.  An entered amount that does not read as a number gives
  \<open>NonNumericAmount\<close>, whatever the upload holds: rows, or a file that cannot be read.
\<close>

theorem non_numeric_amount_first:
  "to_float ops ach_amount = None \<Longrightarrow>
   reconcile ops ach_amount ach_description ach_date uploaded_file = NonNumericAmount"
  by (simp add: reconcile_def reconcile_body_def)

theorem non_numeric_amount_first_witness:
  "reconcile milli_ops ''abc'' ''March Payroll'' (Date 2024 3 15) (Inr example_rows) = NonNumericAmount
   \<and> reconcile milli_ops ''abc'' ''March Payroll'' (Date 2024 3 15)
        (Inl (OtherError ''File is not a zip file'')) = NonNumericAmount"
  using non_numeric_amount_first [OF milli_parse(1)] by simp



text \<open>
  \<^bold>\<open>C6\<close>.  A \<open>ValueError\<close> raised while the upload is read is caught by the handler
  meant for the amount, and reported as \<open>NonNumericAmount\<close> although the amount is a
  number.
\<close>

theorem value_error_reported_as_amount:
  "reconcile milli_ops ''1000.00'' ''March Payroll'' (Date 2024 3 15)
     (Inl (ValueError ''Excel file format cannot be determined, you must specify an engine manually.''))
   = NonNumericAmount"
  using reconcile_reader_error [OF milli_parse(5)] by simp



text \<open>
  \<^bold>\<open>C8\<close>.  The rows of every successful run are sorted by week ending, ascending
  on the text, with the rows that have no week ending after all the others.
\<close>

theorem success_rows_sorted:
  "reconcile ops ach_amount ach_description ach_date uploaded_file = Success rep \<Longrightarrow>
   sorted_wrt week_le (map vectorWeekEnding (rows rep))"
proof -
  assume "reconcile ops ach_amount ach_description ach_date uploaded_file = Success rep"
  from success_report [OF this] obtain df where "rows rep = sort_values df" by blast
  then show ?thesis by (simp only: sort_values_sorted)
qed

theorem success_rows_sorted_witness:
  "\<exists>rep. reconcile milli_ops ''1000.00'' ''March Payroll'' (Date 2024 3 15) (Inr example_rows)
           = Success rep
         \<and> sorted_wrt week_le (map vectorWeekEnding (rows rep))"
proof -
  obtain rep where r: "reconcile milli_ops ''1000.00'' ''March Payroll'' (Date 2024 3 15)
      (Inr example_rows) = Success rep"
    using example_run_succeeds by blast
  from success_rows_sorted [OF r] r show ?thesis by blast
qed

text \<open>
  \<^bold>\<open>C9\<close>, with the cap applied after the padding.  In the sheet of every successful
  run, the width of each column is the smaller of 40 and the longest length in the
  column plus 2, where the column runs over every row of the sheet and a cell whose
  value is false counts as length 0.
\<close>

theorem column_width_capped:
  "reconcile ops ach_amount ach_description ach_date uploaded_file = Success rep \<Longrightarrow>
   widths rep = map (\<lambda>col. min (Max (cell_len ` set col) + 2) 40) (ws_columns (worksheet rep))"
proof -
  assume "reconcile ops ach_amount ach_description ach_date uploaded_file = Success rep"
  from success_report [OF this]
  have ne: "worksheet rep \<noteq> []" and w: "auto_size (ws_columns (worksheet rep)) = Inr (widths rep)"
    by blast+
  from auto_size_eq [OF ws_columns_nonempty [OF ne]] w show ?thesis by simp
qed

theorem column_width_capped_witness:
  "\<exists>rep. reconcile milli_ops ''1000.00'' ''March Payroll'' (Date 2024 3 15) (Inr example_rows)
           = Success rep
         \<and> widths rep
           = map (\<lambda>col. min (Max (cell_len ` set col) + 2) 40) (ws_columns (worksheet rep))"
proof -
  obtain rep where r: "reconcile milli_ops ''1000.00'' ''March Payroll'' (Date 2024 3 15)
      (Inr example_rows) = Success rep"
    using example_run_succeeds by blast
  from column_width_capped [OF r] r show ?thesis by blast
qed

text \<open>
  \<^bold>\<open>C9\<close> as it was stated fails: no fixed padding is added to the capped length.
  A column whose longest text has 5 characters is 2 wider than that; a column whose
  longest text has 52 characters has width 40, the cap itself.
\<close>

theorem column_width_padding_counterexample:
  "column_width [CStr ''Hours''] = Inr (min (length ''Hours'') 40 + 2)
   \<and> column_width [CStr ''Supplier invoice reference number (external system)'']
     = Inr (min (length ''Supplier invoice reference number (external system)'') 40 + 0)"
  by (simp add: column_width_def cell_len_def)



end
